theory Spec2Isabelle
  imports Complex_Main
begin

section \<open>The cleaning cell of the solar EDA notebooks\<close>

text \<open>
  The three notebooks (Benin, Togo, Sierra Leone) share one cell, "Outlier Detection and
  Cleaning", that differs only in the name of the exported file:
  \<^verbatim>\<open>
  key_columns = ['GHI', 'DNI', 'DHI', 'ModA', 'ModB', 'WS', 'WSgust']
  z_scores = df[key_columns].apply(zscore, nan_policy='omit')
  outliers = (z_scores.abs() > 3).any(axis=1)
  print(...); print(...)
  for col in key_columns:
      df[col] = df[col].fillna(df[col].median())
  df = df.drop(columns=['Comments'], errors='ignore')
  df[key_columns] = df[key_columns].clip(lower=0)
  df.to_csv('data/benin_clean.csv', index=False)
  \<close>
  The cell is embedded statement by statement; the two \<^verbatim>\<open>print\<close> calls report the
  flagged rows and change nothing. The pandas and scipy primitives the cell calls are
  written out as list functions with their documented behaviour. A float64 cell is a
  \<open>real option\<close>: \<open>None\<close> is NaN (a missing entry), \<open>Some x\<close> a finite number. The
  rounding of float64 is written out where the cell computes a reading that it stores,
  the median of an even number of values; the z-scores, which the cell only compares with
  3 and prints, are taken exactly. The infinities are not represented.
\<close>

subsection \<open>Data frames\<close>

datatype error = KeyError | TypeError

text \<open>A column as \<^verbatim>\<open>read_csv\<close> types it: float64, or object (text, NaN where empty).\<close>

datatype series = Floats "real option list" | Objects "string option list"

text \<open>Columns in file order, each with its header name.\<close>

type_synonym dataframe = "(string \<times> series) list"

type_synonym csv = "string list \<times> (real + string) option list list"

fun series_len :: "series \<Rightarrow> nat" where
  "series_len (Floats xs) = length xs"
| "series_len (Objects xs) = length xs"

definition columns :: "dataframe \<Rightarrow> string list" where
  "columns d = map fst d"

text \<open>\<^verbatim>\<open>len(df)\<close>: the number of rows, which every column shares.\<close>

definition nrows :: "dataframe \<Rightarrow> nat" where
  "nrows d = (case d of [] \<Rightarrow> 0 | (n, s) # r \<Rightarrow> series_len s)"

text \<open>The shape invariant of a data frame: every column has one entry per row.\<close>

definition rectangular :: "dataframe \<Rightarrow> bool" where
  "rectangular d = list_all (\<lambda>(n, s). series_len s = nrows d) d"

text \<open>\<^verbatim>\<open>df[col]\<close> raises KeyError when no column has that name.\<close>

definition getitem :: "dataframe \<Rightarrow> string \<Rightarrow> error + series" where
  "getitem d col = (case map_of d col of None \<Rightarrow> Inl KeyError | Some s \<Rightarrow> Inr s)"

text \<open>\<^verbatim>\<open>df[[c1, ..., cn]]\<close>: the named columns in the order asked for, KeyError when one is absent.\<close>

fun getitems :: "dataframe \<Rightarrow> string list \<Rightarrow> error + dataframe" where
  "getitems d [] = Inr []"
| "getitems d (c # cs) =
     (case getitem d c of
        Inl e \<Rightarrow> Inl e
      | Inr s \<Rightarrow> (case getitems d cs of Inl e \<Rightarrow> Inl e | Inr r \<Rightarrow> Inr ((c, s) # r)))"

text \<open>\<^verbatim>\<open>df[col] = s\<close> overwrites the column in place, or appends a new last column.\<close>

definition setitem :: "dataframe \<Rightarrow> string \<Rightarrow> series \<Rightarrow> dataframe" where
  "setitem d col s =
     (if col \<in> set (columns d)
      then map (\<lambda>(n, c). if n = col then (n, s) else (n, c)) d
      else d @ [(col, s)])"

text \<open>\<^verbatim>\<open>df[[c1, ..., cn]] = frame\<close> assigns the columns of the frame one by one.\<close>

fun setitems :: "dataframe \<Rightarrow> dataframe \<Rightarrow> dataframe" where
  "setitems d [] = d"
| "setitems d ((n, s) # r) = setitems (setitem d n s) r"

text \<open>\<^verbatim>\<open>df.drop(columns=cs, errors=...)\<close>: with \<^verbatim>\<open>errors='raise'\<close> (the default) an absent
  label is a KeyError, with \<^verbatim>\<open>errors='ignore'\<close> only the existing labels are dropped.\<close>

datatype errors_mode = Raise | Ignore

definition drop_columns :: "dataframe \<Rightarrow> string list \<Rightarrow> errors_mode \<Rightarrow> error + dataframe" where
  "drop_columns d cs errors =
     (if errors = Raise \<and> \<not> set cs \<subseteq> set (columns d) then Inl KeyError
      else Inr (filter (\<lambda>(n, s). n \<notin> set cs) d))"

subsection \<open>Statistics\<close>

fun dropna :: "real option list \<Rightarrow> real list" where
  "dropna [] = []"
| "dropna (None # xs) = dropna xs"
| "dropna (Some x # xs) = x # dropna xs"

text \<open>
  The one place where the cell computes a new reading is the median of an even number of
  values, the float64 mean of the two middle ones, \<^verbatim>\<open>(a + b) / 2\<close> with both operations
  rounded. \<open>fl\<close> is rounding to the nearest float64, ties to the even significand: 53
  significant bits, the unit in the last place never below 2 to the power -1074. The
  readings are float64 values, on which \<open>fl\<close> is the identity; it is written on the
  arguments too, so that a reading given in decimal stands for the value \<^verbatim>\<open>read_csv\<close>
  makes of it. A result beyond the largest float64 is an infinity in the code, which the
  cells here do not hold.
\<close>

definition pow2 :: "int \<Rightarrow> real" where
  "pow2 q = (if 0 \<le> q then 2 ^ nat q else 1 / 2 ^ nat (- q))"

definition round_half_even :: "real \<Rightarrow> int" where
  "round_half_even y =
     (let f = \<lfloor>y\<rfloor>; r = y - of_int f
      in if r < 1 / 2 then f else if 1 / 2 < r then f + 1 else if even f then f else f + 1)"

definition ulp_exponent :: "real \<Rightarrow> int" where
  "ulp_exponent x = max (\<lfloor>log 2 \<bar>x\<bar>\<rfloor> - 52) (- 1074)"

definition fl :: "real \<Rightarrow> real" where
  "fl x =
     (if x = 0 then 0
      else of_int (round_half_even (x / pow2 (ulp_exponent x))) * pow2 (ulp_exponent x))"

definition mean2 :: "real \<Rightarrow> real \<Rightarrow> real" where
  "mean2 a b = fl (fl (fl a + fl b) / 2)"

text \<open>\<^verbatim>\<open>Series.median()\<close> skips NaN; it is NaN when nothing is left, the middle value of the
  sorted rest when their number is odd, the mean of the two middle values when it is even.\<close>

definition median :: "real option list \<Rightarrow> real option" where
  "median a =
     (let xs = sort (dropna a); n = length xs
      in if n = 0 then None
         else if odd n then Some (xs ! (n div 2))
         else Some (mean2 (xs ! (n div 2 - 1)) (xs ! (n div 2))))"

text \<open>\<^verbatim>\<open>Series.fillna(v)\<close>: every NaN becomes \<open>v\<close> (filling with NaN changes nothing).\<close>

definition fillna :: "real option list \<Rightarrow> real option \<Rightarrow> real option list" where
  "fillna a v = map (\<lambda>x. case x of None \<Rightarrow> v | Some y \<Rightarrow> Some y) a"

text \<open>\<^verbatim>\<open>clip(lower=l)\<close> on one cell: NaN stays NaN.\<close>

definition clip_lower :: "real \<Rightarrow> real option \<Rightarrow> real option" where
  "clip_lower l v = (case v of None \<Rightarrow> None | Some x \<Rightarrow> Some (if x < l then l else x))"

fun clip_frame :: "dataframe \<Rightarrow> real \<Rightarrow> error + dataframe" where
  "clip_frame [] l = Inr []"
| "clip_frame ((n, Floats xs) # r) l =
     (case clip_frame r l of Inl e \<Rightarrow> Inl e | Inr c \<Rightarrow> Inr ((n, Floats (map (clip_lower l) xs)) # c))"
| "clip_frame ((n, Objects xs) # r) l = Inl TypeError"

text \<open>\<^verbatim>\<open>scipy.stats.zscore(a, nan_policy='omit')\<close>: mean and standard deviation (\<^verbatim>\<open>ddof=0\<close>)
  are taken over the entries that are not NaN; a NaN entry has a NaN score. A zero
  deviation means that every present value equals the mean, and the quotient 0/0 is NaN.
  Mean, deviation and quotient are exact here. In float64 the sums of numpy round, in an
  order that is the library's own, so a score next to 3 can fall on the other side of it:
  which rows are flagged is stated of no table below but one whose score is far from 3.\<close>

definition nanmean :: "real option list \<Rightarrow> real option" where
  "nanmean a =
     (let xs = dropna a in if xs = [] then None else Some (sum_list xs / real (length xs)))"

definition nanstd :: "real option list \<Rightarrow> real option" where
  "nanstd a =
     (case nanmean a of
        None \<Rightarrow> None
      | Some mn \<Rightarrow>
          (let xs = dropna a
           in Some (sqrt (sum_list (map (\<lambda>x. (x - mn)\<^sup>2) xs) / real (length xs)))))"

definition zscore :: "real option list \<Rightarrow> real option list" where
  "zscore a =
     (case (nanmean a, nanstd a) of
        (Some mn, Some sd) \<Rightarrow>
          map (\<lambda>v. case v of
                     None \<Rightarrow> None
                   | Some x \<Rightarrow> if sd = 0 then None else Some ((x - mn) / sd)) a
      | _ \<Rightarrow> map (\<lambda>v. None) a)"

text \<open>\<^verbatim>\<open>frame.apply(zscore, nan_policy='omit')\<close>, column by column; the arithmetic of
  \<^verbatim>\<open>zscore\<close> raises TypeError on a column of text.\<close>

fun apply_zscore :: "dataframe \<Rightarrow> error + (string \<times> real option list) list" where
  "apply_zscore [] = Inr []"
| "apply_zscore ((n, Floats xs) # r) =
     (case apply_zscore r of Inl e \<Rightarrow> Inl e | Inr z \<Rightarrow> Inr ((n, zscore xs) # z))"
| "apply_zscore ((n, Objects xs) # r) = Inl TypeError"

text \<open>\<^verbatim>\<open>z.abs() > t\<close> on one cell: a comparison with NaN is False.\<close>

definition abs_gt :: "real \<Rightarrow> real option \<Rightarrow> bool" where
  "abs_gt t z = (case z of None \<Rightarrow> False | Some v \<Rightarrow> \<bar>v\<bar> > t)"

text \<open>\<^verbatim>\<open>frame.any(axis=1)\<close>: one flag per row, True when some column is True there.\<close>

definition any_axis1 :: "(string \<times> bool list) list \<Rightarrow> bool list" where
  "any_axis1 fr =
     map (\<lambda>i. list_ex (\<lambda>(n, c). i < length c \<and> c ! i) fr)
       [0 ..< (case fr of [] \<Rightarrow> 0 | (n, c) # r \<Rightarrow> length c)]"

subsection \<open>Export\<close>

text \<open>\<^verbatim>\<open>df.to_csv(path, index=...)\<close> writes a header line with the column names and one line
  per row; with \<^verbatim>\<open>index=True\<close> every line starts with one more field, the row label
  (empty in the header). A line is kept as its list of fields, and a field as the cell it
  prints: a number, a text, or nothing for NaN.\<close>

fun cells :: "series \<Rightarrow> (real + string) option list" where
  "cells (Floats xs) = map (map_option Inl) xs"
| "cells (Objects xs) = map (map_option Inr) xs"

definition to_csv :: "dataframe \<Rightarrow> bool \<Rightarrow> csv" where
  "to_csv d index =
     (if index
      then ([] # columns d,
            map (\<lambda>i. Some (Inl (real i)) # map (\<lambda>(n, s). cells s ! i) d) [0 ..< nrows d])
      else (columns d, map (\<lambda>i. map (\<lambda>(n, s). cells s ! i) d) [0 ..< nrows d]))"

subsection \<open>The notebook state and the statements of the cell\<close>

record notebook =
  df :: dataframe
  z_scores :: "(string \<times> real option list) list"
  outliers :: "bool list"
  files :: "string \<rightharpoonup> csv"

text \<open>The key columns are the seven that the cell names; the other measurement columns of
  the files (Tamb, RH, WD and so on) are read and exported as they are.\<close>

definition key_columns :: "string list" where
  "key_columns = [''GHI'', ''DNI'', ''DHI'', ''ModA'', ''ModB'', ''WS'', ''WSgust'']"

text \<open>A statement either raises, leaving the state as it was, or yields the next state.\<close>

type_synonym stmt = "notebook \<Rightarrow> error + notebook"

text \<open>\<^verbatim>\<open>z_scores = df[key_columns].apply(zscore, nan_policy='omit')\<close>\<close>

definition compute_z_scores :: "string list \<Rightarrow> stmt" where
  "compute_z_scores ks s =
     (case getitems (df s) ks of
        Inl e \<Rightarrow> Inl e
      | Inr sel \<Rightarrow>
          (case apply_zscore sel of
             Inl e \<Rightarrow> Inl e
           | Inr z \<Rightarrow> Inr (s\<lparr>z_scores := z\<rparr>)))"

text \<open>\<^verbatim>\<open>outliers = (z_scores.abs() > 3).any(axis=1)\<close>\<close>

definition flag_outliers :: stmt where
  "flag_outliers s =
     Inr (s\<lparr>outliers := any_axis1 (map (\<lambda>(n, z). (n, map (abs_gt 3) z)) (z_scores s))\<rparr>)"

text \<open>One turn of the loop, \<^verbatim>\<open>df[col] = df[col].fillna(df[col].median())\<close>; the median of a
  column of text raises TypeError.\<close>

definition impute_col :: "string \<Rightarrow> stmt" where
  "impute_col col s =
     (case getitem (df s) col of
        Inl e \<Rightarrow> Inl e
      | Inr (Objects ys) \<Rightarrow> Inl TypeError
      | Inr (Floats xs) \<Rightarrow> Inr (s\<lparr>df := setitem (df s) col (Floats (fillna xs (median xs)))\<rparr>))"

text \<open>\<^verbatim>\<open>df = df.drop(columns=['Comments'], errors='ignore')\<close>\<close>

definition drop_comments :: stmt where
  "drop_comments s =
     (case drop_columns (df s) [''Comments''] Ignore of
        Inl e \<Rightarrow> Inl e
      | Inr d \<Rightarrow> Inr (s\<lparr>df := d\<rparr>))"

text \<open>\<^verbatim>\<open>df[key_columns] = df[key_columns].clip(lower=0)\<close>\<close>

definition clip_keys :: "string list \<Rightarrow> stmt" where
  "clip_keys ks s =
     (case getitems (df s) ks of
        Inl e \<Rightarrow> Inl e
      | Inr sel \<Rightarrow>
          (case clip_frame sel 0 of
             Inl e \<Rightarrow> Inl e
           | Inr c \<Rightarrow> Inr (s\<lparr>df := setitems (df s) c\<rparr>)))"

text \<open>\<^verbatim>\<open>df.to_csv(dest, index=False)\<close>\<close>

definition export :: "string \<Rightarrow> stmt" where
  "export dest s = Inr (s\<lparr>files := (files s)(dest \<mapsto> to_csv (df s) False)\<rparr>)"

text \<open>Statements run in order; the first exception ends the cell, and the state keeps
  whatever the statements before it have done.\<close>

fun exec :: "stmt list \<Rightarrow> notebook \<Rightarrow> error option \<times> notebook" where
  "exec [] s = (None, s)"
| "exec (c # cs) s = (case c s of Inl e \<Rightarrow> (Some e, s) | Inr s' \<Rightarrow> exec cs s')"

definition detect_stmts :: "stmt list" where
  "detect_stmts = [compute_z_scores key_columns, flag_outliers]"

definition impute_stmts :: "stmt list" where
  "impute_stmts = map impute_col key_columns"

definition clean_stmts :: "stmt list" where
  "clean_stmts = detect_stmts @ impute_stmts @ [drop_comments, clip_keys key_columns]"

definition cleaning_cell :: "string \<Rightarrow> stmt list" where
  "cleaning_cell dest = clean_stmts @ [export dest]"

text \<open>The state in which the cell starts on a freshly loaded table.\<close>

definition loaded :: "dataframe \<Rightarrow> notebook" where
  "loaded d = \<lparr>df = d, z_scores = [], outliers = [], files = Map.empty\<rparr>"

text \<open>The operations of the specification, read off the cell: \<open>detect_outliers\<close> is its
  first two statements, \<open>clean\<close> everything before the export.\<close>

definition detect_outliers :: "dataframe \<Rightarrow> error + bool list" where
  "detect_outliers d =
     (case exec detect_stmts (loaded d) of
        (None, s) \<Rightarrow> Inr (outliers s)
      | (Some e, s) \<Rightarrow> Inl e)"

definition clean :: "dataframe \<Rightarrow> error + dataframe" where
  "clean d =
     (case exec clean_stmts (loaded d) of
        (None, s) \<Rightarrow> Inr (df s)
      | (Some e, s) \<Rightarrow> Inl e)"

subsection \<open>Notions used in the statements\<close>

text \<open>The cell runs through when every key column is there and numeric; \<open>has_columns\<close> asks
  for the names only.\<close>

definition has_columns :: "dataframe \<Rightarrow> string list \<Rightarrow> bool" where
  "has_columns d ks = list_all (\<lambda>k. map_of d k \<noteq> None) ks"

definition numeric_columns :: "dataframe \<Rightarrow> string list \<Rightarrow> bool" where
  "numeric_columns d ks =
     list_all (\<lambda>k. case map_of d k of Some (Floats xs) \<Rightarrow> True | _ \<Rightarrow> False) ks"

text \<open>The entries of a numeric column, by name (empty when there is no such column).\<close>

definition column :: "dataframe \<Rightarrow> string \<Rightarrow> real option list" where
  "column d k = (case map_of d k of Some (Floats xs) \<Rightarrow> xs | _ \<Rightarrow> [])"

text \<open>Closed forms of what the statements compute, used in the proofs and shown below to
  be what the cell computes: \<open>rewrite f ks d\<close> replaces each column named in \<open>ks\<close> by \<open>f\<close> of
  its entries and leaves the others.\<close>

definition rewrite ::
  "(real option list \<Rightarrow> real option list) \<Rightarrow> string list \<Rightarrow> dataframe \<Rightarrow> dataframe" where
  "rewrite f ks d =
     map (\<lambda>(n, c). if n \<in> set ks then (n, Floats (f (column d n))) else (n, c)) d"

definition imputed :: "dataframe \<Rightarrow> dataframe" where
  "imputed d = rewrite (\<lambda>xs. fillna xs (median xs)) key_columns d"

definition cleaned :: "dataframe \<Rightarrow> dataframe" where
  "cleaned d =
     rewrite (map (clip_lower 0)) key_columns (filter (\<lambda>(n, c). n \<noteq> ''Comments'') (imputed d))"

definition scores :: "dataframe \<Rightarrow> (string \<times> real option list) list" where
  "scores d = map (\<lambda>k. (k, zscore (column d k))) key_columns"

definition flags :: "dataframe \<Rightarrow> bool list" where
  "flags d = any_axis1 (map (\<lambda>(n, z). (n, map (abs_gt 3) z)) (scores d))"

subsection \<open>Sample tables\<close>

text \<open>Four observations with gaps, negative readings and a comment column; the GHI column
  is the specification's example \<open>[1, 2, missing, 100]\<close>.\<close>

definition sample :: dataframe where
  "sample =
     [(''Timestamp'', Objects [Some ''2021-08-09 00:01'', Some ''2021-08-09 00:02'',
                               Some ''2021-08-09 00:03'', Some ''2021-08-09 00:04'']),
      (''GHI'', Floats [Some 1, Some 2, None, Some 100]),
      (''DNI'', Floats [Some (-5), None, Some 3, Some 4]),
      (''DHI'', Floats [Some 0, Some 0, Some 0, Some 0]),
      (''ModA'', Floats [Some (3/2), Some (5/2), None, None]),
      (''ModB'', Floats [Some 1, Some 1, Some 1, Some 1]),
      (''WS'', Floats [Some 0, Some 1, Some 2, Some 3]),
      (''WSgust'', Floats [Some (-1), Some (-2), None, Some (-3)]),
      (''Tamb'', Floats [Some (-4), None, Some 26, Some 27]),
      (''Comments'', Objects [None, None, None, None])]"

definition sample_clean :: dataframe where
  "sample_clean =
     [(''Timestamp'', Objects [Some ''2021-08-09 00:01'', Some ''2021-08-09 00:02'',
                               Some ''2021-08-09 00:03'', Some ''2021-08-09 00:04'']),
      (''GHI'', Floats [Some 1, Some 2, Some 2, Some 100]),
      (''DNI'', Floats [Some 0, Some 3, Some 3, Some 4]),
      (''DHI'', Floats [Some 0, Some 0, Some 0, Some 0]),
      (''ModA'', Floats [Some (3/2), Some (5/2), Some 2, Some 2]),
      (''ModB'', Floats [Some 1, Some 1, Some 1, Some 1]),
      (''WS'', Floats [Some 0, Some 1, Some 2, Some 3]),
      (''WSgust'', Floats [Some 0, Some 0, Some 0, Some 0]),
      (''Tamb'', Floats [Some (-4), None, Some 26, Some 27])]"

text \<open>A table without the DNI column.\<close>

definition sample_no_dni :: dataframe where
  "sample_no_dni =
     [(''Timestamp'', Objects [Some ''2021-08-09 00:01'']),
      (''GHI'', Floats [Some 1]),
      (''DHI'', Floats [Some 0]),
      (''ModA'', Floats [Some 2]),
      (''ModB'', Floats [Some 1]),
      (''WS'', Floats [Some 0]),
      (''WSgust'', Floats [None])]"

text \<open>The state in which the cell leaves the notebook after the first sample table.\<close>

definition sample_export :: notebook where
  "sample_export =
     \<lparr>df = sample_clean, z_scores = scores sample, outliers = flags sample,
      files = [''data/benin_clean.csv'' \<mapsto> to_csv sample_clean False]\<rparr>"

text \<open>Two observations; no wind speed was recorded.\<close>

definition sample_blank :: dataframe where
  "sample_blank =
     [(''Timestamp'', Objects [Some ''2021-08-09 00:01'', Some ''2021-08-09 00:02'']),
      (''GHI'', Floats [Some 1, Some 2]),
      (''DNI'', Floats [Some 0, Some 0]),
      (''DHI'', Floats [Some 3, None]),
      (''ModA'', Floats [Some 2, Some 2]),
      (''ModB'', Floats [Some 1, Some 1]),
      (''WS'', Floats [None, None]),
      (''WSgust'', Floats [Some 1, Some 4])]"


text \<open>Eleven observations; the last GHI reading stands far from the other ten.\<close>

definition spike :: dataframe where
  "spike =
     [(''Timestamp'', Objects [Some ''00:01'', Some ''00:02'', Some ''00:03'', Some ''00:04'',
         Some ''00:05'', Some ''00:06'', Some ''00:07'', Some ''00:08'', Some ''00:09'',
         Some ''00:10'', Some ''00:11'']),
      (''GHI'', Floats [Some 0, Some 0, Some 0, Some 0, Some 0, Some 0, Some 0, Some 0, Some 0,
         Some 0, Some 11]),
      (''DNI'', Floats [Some 1, Some 1, Some 1, Some 1, Some 1, Some 1, Some 1, Some 1, Some 1,
         Some 1, Some 1]),
      (''DHI'', Floats [None, Some 2, Some 2, Some 2, Some 2, Some 2, Some 2, Some 2, Some 2,
         Some 2, Some 2]),
      (''ModA'', Floats [Some 3, Some 3, Some 3, Some 3, Some 3, Some 3, Some 3, Some 3, Some 3,
         Some 3, Some 3]),
      (''ModB'', Floats [Some 3, Some 3, Some 3, Some 3, Some 3, Some 3, Some 3, Some 3, Some 3,
         Some 3, Some 3]),
      (''WS'', Floats [Some 4, Some 4, Some 4, Some 4, Some 4, Some 4, Some 4, Some 4, Some 4,
         Some 4, Some 4]),
      (''WSgust'', Floats [Some 5, Some 5, Some 5, Some 5, Some 5, Some 5, Some 5, Some 5, Some 5,
         Some 5, Some 5])]"

subsection \<open>The median in the specification's words\<close>



section \<open>Facts about the column primitives\<close>

lemma pow2_powr: "pow2 q = 2 powr of_int q"
  by (simp add: pow2_def powr_real_of_int inverse_eq_divide)

lemma pow2_pos: "0 < pow2 q"
  by (simp add: pow2_powr)

lemma ulp_exponent_eq:
  assumes "pow2 e \<le> \<bar>x\<bar>" and "\<bar>x\<bar> < pow2 (e + 1)"
  shows "ulp_exponent x = max (e - 52) (- 1074)"
proof -
  have "0 < \<bar>x\<bar>"
    using assms(1) pow2_pos [of e] by linarith
  then have "\<lfloor>log 2 \<bar>x\<bar>\<rfloor> = e"
    using assms by (simp add: floor_log_eq_powr_iff pow2_powr)
  then show ?thesis by (simp add: ulp_exponent_def)
qed

lemma fl_eq:
  assumes "pow2 e \<le> \<bar>x\<bar>" and "\<bar>x\<bar> < pow2 (e + 1)"
    and "q = max (e - 52) (- 1074)"
  shows "fl x = of_int (round_half_even (x / pow2 q)) * pow2 q"
proof -
  have "x \<noteq> 0"
    using assms(1) pow2_pos [of e] by auto
  then show ?thesis
    by (simp add: fl_def ulp_exponent_eq [OF assms(1,2)] assms(3))
qed

text \<open>\<open>fl\<close> is rounding to nearest: the result is within half a unit in the last place,
  and a value that is a whole number of units is kept.\<close>

lemma round_half_even_near: "\<bar>of_int (round_half_even y) - y\<bar> \<le> 1 / 2"
  unfolding round_half_even_def Let_def by (auto simp: abs_le_iff)

lemma round_half_even_of_int: "round_half_even (of_int n) = n"
  by (simp add: round_half_even_def)

lemma fl_nearest: "\<bar>fl x - x\<bar> \<le> pow2 (ulp_exponent x) / 2"
proof (cases "x = 0")
  case True
  then show ?thesis
    using pow2_pos [of "ulp_exponent 0"] by (simp add: fl_def)
next
  case False
  let ?p = "pow2 (ulp_exponent x)"
  have p: "0 < ?p" by (rule pow2_pos)
  have "fl x - x = (of_int (round_half_even (x / ?p)) - x / ?p) * ?p"
    using False p by (simp add: fl_def field_simps)
  then have "\<bar>fl x - x\<bar> = \<bar>of_int (round_half_even (x / ?p)) - x / ?p\<bar> * ?p"
    using p by (simp add: abs_mult)
  also have "\<dots> \<le> 1 / 2 * ?p"
    using p round_half_even_near [of "x / ?p"] by (intro mult_right_mono) auto
  finally show ?thesis by simp
qed

lemma fl_representable:
  assumes "x = of_int n * pow2 (ulp_exponent x)"
  shows "fl x = x"
proof (cases "x = 0")
  case True
  then show ?thesis by (simp add: fl_def)
next
  case False
  have "x / pow2 (ulp_exponent x) = of_int n"
    using assms pow2_pos [of "ulp_exponent x"] by (simp add: field_simps)
  with False assms show ?thesis
    by (simp add: fl_def round_half_even_of_int)
qed

lemma fl_2: "fl 2 = 2"
  by (subst fl_eq [where e = 1 and q = "- 51"])
     (simp_all add: pow2_def round_half_even_def)

lemma fl_4: "fl 4 = 4"
  by (subst fl_eq [where e = 2 and q = "- 50"])
     (simp_all add: pow2_def round_half_even_def)

lemma fl_3_2: "fl (3 / 2) = 3 / 2"
  by (subst fl_eq [where e = 0 and q = "- 52"])
     (simp_all add: pow2_def round_half_even_def)

lemma fl_5_2: "fl (5 / 2) = 5 / 2"
  by (subst fl_eq [where e = 1 and q = "- 51"])
     (simp_all add: pow2_def round_half_even_def)

lemma mean2_sample: "mean2 (3 / 2) (5 / 2) = 2"
  by (simp add: mean2_def fl_3_2 fl_5_2 fl_4 fl_2)

text \<open>0.1 and 0.2 as read_csv reads them, their float64 sum and its half.\<close>

lemma fl_tenth: "fl (1 / 10) = 3602879701896397 / 2 ^ 55"
  by (subst fl_eq [where e = "- 4" and q = "- 56"])
     (simp_all add: pow2_def round_half_even_def)

lemma fl_fifth: "fl (1 / 5) = 3602879701896397 / 2 ^ 54"
  by (subst fl_eq [where e = "- 3" and q = "- 55"])
     (simp_all add: pow2_def round_half_even_def)

lemma fl_sum: "fl (3602879701896397 / 2 ^ 55 + 3602879701896397 / 2 ^ 54) = 5404319552844596 / 2 ^ 54"
  by (subst fl_eq [where e = "- 2" and q = "- 54"])
     (simp_all add: pow2_def round_half_even_def)

lemma fl_half: "fl (5404319552844596 / 2 ^ 54 / 2) = 5404319552844596 / 2 ^ 55"
  by (subst fl_eq [where e = "- 3" and q = "- 55"])
     (simp_all add: pow2_def round_half_even_def)

lemma mean2_rounds: "mean2 (1 / 10) (1 / 5) = 5404319552844596 / 2 ^ 55"
  by (simp only: mean2_def fl_tenth fl_fifth fl_sum fl_half)

lemma exact_mean_differs: "mean2 (1 / 10) (1 / 5) \<noteq> (1 / 10 + 1 / 5) / 2"
  by (simp add: mean2_rounds)








lemma median_GHI: "median [Some 1, Some 2, None, Some 100] = Some 2"
  by (simp add: median_def)

lemma median_Some:
  assumes "list_ex (\<lambda>v. v \<noteq> None) xs"
  shows "\<exists>m. median xs = Some m"
proof -
  from assms have "dropna xs \<noteq> []"
    by (induction xs rule: dropna.induct) auto
  then have n: "length (sort (dropna xs)) \<noteq> 0"
    by simp
  show ?thesis
  proof (cases "odd (length (sort (dropna xs)))")
    case True
    with n show ?thesis
      unfolding median_def Let_def by (simp only: if_True if_False not_False_eq_True not_True_eq_False) blast
  next
    case False
    with n show ?thesis
      unfolding median_def Let_def by (simp only: if_True if_False not_False_eq_True not_True_eq_False) blast
  qed
qed

lemma fillna_no_missing: "v \<noteq> None \<Longrightarrow> None \<notin> set (fillna xs v)"
  by (auto simp: fillna_def split: option.splits)

lemma clip_no_missing: "None \<notin> set xs \<Longrightarrow> None \<notin> set (map (clip_lower l) xs)"
  by (auto simp: clip_lower_def split: option.splits)

lemma clip_lower_ge: "clip_lower l v = Some y \<Longrightarrow> l \<le> y"
  by (auto simp: clip_lower_def split: option.splits if_splits)

lemma dropna_Nil_iff: "dropna xs = [] \<longleftrightarrow> (\<forall>x\<in>set xs. x = None)"
  by (induction xs rule: dropna.induct) auto

lemma median_None_iff: "median xs = None \<longleftrightarrow> dropna xs = []"
proof
  assume none: "median xs = None"
  show "dropna xs = []"
  proof (rule ccontr)
    assume "dropna xs \<noteq> []"
    then have "list_ex (\<lambda>v. v \<noteq> None) xs"
      by (auto simp: dropna_Nil_iff list_ex_iff)
    from median_Some [OF this] none show False by simp
  qed
next
  assume "dropna xs = []"
  then show "median xs = None" by (simp add: median_def)
qed

lemma fillna_id: "None \<notin> set ys \<or> v = None \<Longrightarrow> fillna ys v = ys"
  by (auto simp: fillna_def intro!: map_idI split: option.splits)

lemma clip_lower_idem: "clip_lower l (clip_lower l v) = clip_lower l v"
  by (simp add: clip_lower_def split: option.splits)

lemma impute_fixed:
  "fillna (map (clip_lower l) (fillna xs (median xs))) (median (map (clip_lower l) (fillna xs (median xs)))) =
   map (clip_lower l) (fillna xs (median xs))"
proof (cases "median xs")
  case None
  then have all: "\<forall>x\<in>set xs. x = None"
    by (simp add: median_None_iff dropna_Nil_iff)
  then have "fillna xs None = xs"
    by (intro fillna_id) simp
  moreover from all have "\<forall>x\<in>set (map (clip_lower l) xs). x = None"
    by (auto simp: clip_lower_def)
  then have "median (map (clip_lower l) xs) = None"
    by (simp only: median_None_iff dropna_Nil_iff)
  ultimately show ?thesis
    using None by (simp add: fillna_id)
next
  case (Some m)
  then have "None \<notin> set (map (clip_lower l) (fillna xs (median xs)))"
    by (intro clip_no_missing fillna_no_missing) simp
  then show ?thesis
    by (intro fillna_id) simp
qed

lemma length_zscore: "length (zscore a) = length a"
  by (simp add: zscore_def split: option.splits)

lemma abs_gt_div_sqrt:
  assumes "0 < v"
  shows "abs_gt 3 (Some (a / sqrt v)) \<longleftrightarrow> 9 * v < a\<^sup>2"
proof -
  have s: "0 < sqrt v" using assms by simp
  have "\<bar>a / sqrt v\<bar> > 3 \<longleftrightarrow> 3 * sqrt v < \<bar>a\<bar>"
    using s by (simp add: field_simps)
  also have "3 * sqrt v = sqrt (9 * v)"
    by (simp add: real_sqrt_mult)
  also have "\<bar>a\<bar> = sqrt (a\<^sup>2)"
    by simp
  also have "sqrt (9 * v) < sqrt (a\<^sup>2) \<longleftrightarrow> 9 * v < a\<^sup>2"
    by (rule real_sqrt_less_iff)
  finally show ?thesis by (simp add: abs_gt_def)
qed

lemma abs_gt_minus_div_sqrt:
  assumes "0 < v"
  shows "abs_gt 3 (Some (- (a / sqrt v))) \<longleftrightarrow> 9 * v < a\<^sup>2"
  using abs_gt_div_sqrt [OF assms, of "- a"] by simp

lemma abs_gt_None: "abs_gt t None = False"
  by (simp add: abs_gt_def)

lemma all_missing_median:
  assumes "list_all (\<lambda>v. v = None) xs"
  shows "median xs = None" and "fillna xs (median xs) = xs"
proof -
  from assms show m: "median xs = None"
    by (simp add: median_None_iff dropna_Nil_iff list_all_iff)
  show "fillna xs (median xs) = xs"
    unfolding m by (rule fillna_id) simp
qed

text \<open>The score of \<^verbatim>\<open>zscore\<close> over a zero deviation is 0/0: every present value is the mean.\<close>

lemma zero_deviation:
  assumes "nanmean a = Some mn" and "nanstd a = Some 0"
  shows "\<forall>x\<in>set (dropna a). x = mn"
proof -
  let ?xs = "dropna a"
  from assms(1) have ne: "?xs \<noteq> []"
    by (auto simp: nanmean_def Let_def split: if_splits)
  from assms have "sqrt (sum_list (map (\<lambda>x. (x - mn)\<^sup>2) ?xs) / real (length ?xs)) = 0"
    by (simp add: nanstd_def Let_def)
  with ne have "sum_list (map (\<lambda>x. (x - mn)\<^sup>2) ?xs) = 0"
    by simp
  moreover have "\<forall>y\<in>set (map (\<lambda>x. (x - mn)\<^sup>2) ?xs). 0 \<le> y"
    by auto
  ultimately have "\<forall>y\<in>set (map (\<lambda>x. (x - mn)\<^sup>2) ?xs). y = 0"
    by (simp only: sum_list_nonneg_eq_0_iff)
  then show ?thesis by simp
qed





lemma median_rounds:
  "median [Some (1 / 10), None, Some (1 / 5), None] = Some (5404319552844596 / 2 ^ 55)"
  by (simp add: median_def mean2_rounds)


section \<open>Facts about data frames\<close>

lemma numeric_has: "numeric_columns d ks \<Longrightarrow> has_columns d ks"
  by (induction ks) (auto simp: numeric_columns_def has_columns_def split: option.splits)

lemma getitems_has:
  "has_columns d ks \<Longrightarrow> getitems d ks = Inr (map (\<lambda>k. (k, the (map_of d k))) ks)"
  by (induction ks) (auto simp: has_columns_def getitem_def)

lemma getitems_missing:
  "\<not> has_columns d ks \<Longrightarrow> getitems d ks = Inl KeyError"
  by (induction ks) (auto simp: has_columns_def getitem_def split: option.splits sum.splits)

lemma getitems_numeric:
  "numeric_columns d ks \<Longrightarrow> getitems d ks = Inr (map (\<lambda>k. (k, Floats (column d k))) ks)"
  by (induction ks) (auto simp: numeric_columns_def getitem_def column_def split: option.splits series.splits)

lemma apply_zscore_floats:
  "apply_zscore (map (\<lambda>k. (k, Floats (f k))) ks) = Inr (map (\<lambda>k. (k, zscore (f k))) ks)"
  by (induction ks) auto

lemma apply_zscore_objects:
  "has_columns d ks \<Longrightarrow> \<not> numeric_columns d ks \<Longrightarrow>
   apply_zscore (map (\<lambda>k. (k, the (map_of d k))) ks) = Inl TypeError"
proof (induction ks)
  case Nil
  then show ?case by (simp add: numeric_columns_def)
next
  case (Cons k ks)
  then show ?case
    by (cases "the (map_of d k)")
       (auto simp: numeric_columns_def has_columns_def split: sum.splits)
qed

lemma clip_frame_floats:
  "clip_frame (map (\<lambda>k. (k, Floats (f k))) ks) l = Inr (map (\<lambda>k. (k, Floats (map (clip_lower l) (f k)))) ks)"
  by (induction ks) auto

lemma map_of_rewrite:
  "map_of (rewrite f ks d) n =
     (if n \<in> set ks then (case map_of d n of None \<Rightarrow> None | Some c \<Rightarrow> Some (Floats (f (column d n))))
      else map_of d n)"
proof -
  have "map_of (map (\<lambda>(m, c). if m \<in> set ks then (m, Floats (g m)) else (m, c)) d) n =
     (if n \<in> set ks then (case map_of d n of None \<Rightarrow> None | Some c \<Rightarrow> Some (Floats (g n)))
      else map_of d n)" for g
    by (induction d) auto
  then show ?thesis by (simp add: rewrite_def)
qed

lemma columns_rewrite: "columns (rewrite f ks d) = columns d"
  by (auto simp: columns_def rewrite_def split: prod.splits)

lemma numeric_rewrite:
  "numeric_columns d ks \<Longrightarrow> numeric_columns (rewrite f js d) ks"
  by (auto simp: numeric_columns_def list_all_iff map_of_rewrite split: option.splits series.splits)

lemma column_rewrite_other: "n \<notin> set ks \<Longrightarrow> column (rewrite f ks d) n = column d n"
  by (simp add: column_def map_of_rewrite)

lemma rewrite_Cons:
  assumes k: "k \<notin> set ks"
  shows "rewrite f ks (rewrite f [k] d) = rewrite f (k # ks) d"
proof -
  let ?d1 = "rewrite f [k] d"
  have c: "n \<in> set ks \<Longrightarrow> column ?d1 n = column d n" for n
    using k by (intro column_rewrite_other) auto
  have "rewrite f ks ?d1 =
      map (\<lambda>(n, c). if n \<in> set ks then (n, Floats (f (column ?d1 n))) else (n, c)) ?d1"
    by (rule rewrite_def)
  also have "\<dots> = map (\<lambda>(n, c). if n \<in> set ks then (n, Floats (f (column d n))) else (n, c)) ?d1"
    by (intro map_cong) (auto simp: c)
  also have "\<dots> = rewrite f (k # ks) d"
    using k by (auto simp: rewrite_def)
  finally show ?thesis .
qed

lemma has_columns_iff: "has_columns d ks \<longleftrightarrow> set ks \<subseteq> set (columns d)"
  by (auto simp: has_columns_def list_all_iff columns_def map_of_eq_None_iff)

lemma rewrite_single:
  "map_of d k = Some (Floats xs) \<Longrightarrow>
   rewrite f [k] d = map (\<lambda>(n, c). if n = k then (n, Floats (f xs)) else (n, c)) d"
  by (simp add: rewrite_def column_def split_def cong: if_cong)

lemma numeric_columns_Cons:
  "numeric_columns d (k # ks) \<longleftrightarrow> numeric_columns d [k] \<and> numeric_columns d ks"
  by (simp add: numeric_columns_def)

lemma rewrite_Nil: "rewrite f [] d = d"
  by (simp add: rewrite_def split_def)

lemma setitems_floats:
  "set ks \<subseteq> set (columns d) \<Longrightarrow>
   setitems d (map (\<lambda>k. (k, Floats (g k))) ks) =
   map (\<lambda>(n, c). if n \<in> set ks then (n, Floats (g n)) else (n, c)) d"
proof (induction ks arbitrary: d)
  case Nil
  then show ?case by (simp add: split_def)
next
  case (Cons k ks)
  let ?d1 = "map (\<lambda>(n, c). if n = k then (n, Floats (g k)) else (n, c)) d"
  have cols: "columns ?d1 = columns d"
    by (auto simp: columns_def)
  from Cons.prems have "setitem d k (Floats (g k)) = ?d1"
    by (simp add: setitem_def)
  then have "setitems d (map (\<lambda>k. (k, Floats (g k))) (k # ks)) =
     setitems ?d1 (map (\<lambda>k. (k, Floats (g k))) ks)"
    by simp
  also have "\<dots> = map (\<lambda>(n, c). if n \<in> set ks then (n, Floats (g n)) else (n, c)) ?d1"
    using Cons.prems by (intro Cons.IH) (simp add: cols)
  also have "\<dots> = map (\<lambda>(n, c). if n \<in> set (k # ks) then (n, Floats (g n)) else (n, c)) d"
    by (auto simp: split_def)
  finally show ?case .
qed

lemma map_of_filter_name:
  "map_of (filter (\<lambda>(n, c). n \<noteq> x) d) k = (if k = x then None else map_of d k)"
  by (induction d) auto

lemma numeric_filter:
  "numeric_columns d ks \<Longrightarrow> x \<notin> set ks \<Longrightarrow> numeric_columns (filter (\<lambda>(n, c). n \<noteq> x) d) ks"
  by (auto simp: numeric_columns_def list_all_iff map_of_filter_name)

lemma filter_rewrite:
  "filter (\<lambda>(n, c). n \<notin> set ks) (rewrite f ks d) = filter (\<lambda>(n, c). n \<notin> set ks) d"
proof -
  have "filter (\<lambda>(n, c). n \<notin> set ks)
          (map (\<lambda>(n, c). if n \<in> set ks then (n, Floats (g n)) else (n, c)) e) =
        filter (\<lambda>(n, c). n \<notin> set ks) e" for g and e :: dataframe
    by (induction e) auto
  then show ?thesis unfolding rewrite_def .
qed

lemma numeric_column:
  "numeric_columns d ks \<Longrightarrow> k \<in> set ks \<Longrightarrow> map_of d k = Some (Floats (column d k))"
  by (auto simp: numeric_columns_def list_all_iff column_def split: option.splits series.splits)

lemma rewrite_id:
  assumes "\<And>n c. (n, c) \<in> set e \<Longrightarrow> n \<in> set ks \<Longrightarrow> c = Floats (f (column e n))"
  shows "rewrite f ks e = e"
  unfolding rewrite_def using assms by (intro map_idI) auto

lemma rewrite_uniform:
  assumes "(n, c) \<in> set (rewrite f ks e)" "n \<in> set ks"
  shows "c = Floats (column (rewrite f ks e) n)"
proof -
  from assms have c: "c = Floats (f (column e n))" and "n \<in> fst ` set e"
    by (force simp: rewrite_def split: if_splits)+
  then have "map_of e n \<noteq> None"
    by (simp add: map_of_eq_None_iff)
  with assms(2) have "column (rewrite f ks e) n = f (column e n)"
    by (auto simp: column_def [of "rewrite f ks e"] map_of_rewrite)
  with c show ?thesis by simp
qed

lemma numeric_member:
  assumes "numeric_columns d ks" "k \<in> set ks"
  shows "(k, Floats (column d k)) \<in> set d"
  using numeric_column [OF assms] by (rule map_of_SomeD)

lemma rectangularD: "rectangular d \<Longrightarrow> (n, s) \<in> set d \<Longrightarrow> series_len s = nrows d"
  by (auto simp: rectangular_def list_all_iff)

lemma length_key_column:
  assumes "numeric_columns d ks" "k \<in> set ks" "rectangular d"
  shows "length (column d k) = nrows d"
  using rectangularD [OF assms(3) numeric_member [OF assms(1,2)]] by simp


lemma drop_columns_raise:
  "''Comments'' \<notin> set (columns d) \<Longrightarrow> drop_columns d [''Comments''] Raise = Inl KeyError"
  by (simp add: drop_columns_def)

lemma to_csv_plain:
  "to_csv d False = (columns d, map (\<lambda>i. map (\<lambda>(n, s). cells s ! i) d) [0 ..< nrows d])"
  by (simp add: to_csv_def)

lemma present_numeric:
  assumes "list_all (\<lambda>k. list_ex (\<lambda>v. v \<noteq> None) (column d k)) ks"
  shows "numeric_columns d ks"
  using assms
  by (auto simp: numeric_columns_def list_all_iff column_def split: option.splits series.splits)

lemma map_of_setitem:
  "map_of d k \<noteq> None \<Longrightarrow> map_of (setitem d k s) k = Some s"
proof -
  assume "map_of d k \<noteq> None"
  then have "k \<in> set (columns d)"
    by (simp add: columns_def map_of_eq_None_iff)
  moreover have "map_of (map (\<lambda>(n, c). if n = k then (n, s) else (n, c)) e) k =
      (case map_of e k of None \<Rightarrow> None | Some c \<Rightarrow> Some s)" for e :: dataframe
    by (induction e) auto
  ultimately show ?thesis
    using \<open>map_of d k \<noteq> None\<close> by (auto simp: setitem_def)
qed


section \<open>Closed forms of the statements\<close>

lemma exec_append:
  "exec (p @ q) s = (case exec p s of (None, s') \<Rightarrow> exec q s' | (Some e, s') \<Rightarrow> (Some e, s'))"
  by (induction p arbitrary: s) (auto split: sum.splits)

lemma impute_col_numeric:
  assumes "numeric_columns (df s) [k]"
  shows "impute_col k s = Inr (s\<lparr>df := rewrite (\<lambda>xs. fillna xs (median xs)) [k] (df s)\<rparr>)"
proof -
  from assms obtain xs where xs: "map_of (df s) k = Some (Floats xs)"
    by (auto simp: numeric_columns_def split: option.splits series.splits)
  then have "k \<in> set (columns (df s))"
    by (auto simp: columns_def dest: map_of_SomeD intro: rev_image_eqI)
  with xs show ?thesis
    by (simp add: impute_col_def getitem_def setitem_def rewrite_single [OF xs])
qed

lemma exec_impute:
  "numeric_columns (df s) ks \<Longrightarrow> distinct ks \<Longrightarrow>
   exec (map impute_col ks) s = (None, s\<lparr>df := rewrite (\<lambda>xs. fillna xs (median xs)) ks (df s)\<rparr>)"
proof (induction ks arbitrary: s)
  case Nil
  then show ?case by (simp add: rewrite_Nil)
next
  case (Cons k ks)
  let ?F = "\<lambda>xs. fillna xs (median xs)"
  let ?s1 = "s\<lparr>df := rewrite ?F [k] (df s)\<rparr>"
  from Cons.prems have k: "numeric_columns (df s) [k]" and ks: "numeric_columns (df s) ks"
    and d: "k \<notin> set ks" "distinct ks"
    by (simp_all add: numeric_columns_Cons [of _ k ks])
  have "exec (map impute_col (k # ks)) s = exec (map impute_col ks) ?s1"
    by (simp add: impute_col_numeric [OF k])
  also have "\<dots> = (None, ?s1\<lparr>df := rewrite ?F ks (df ?s1)\<rparr>)"
    using ks d by (intro Cons.IH) (simp_all add: numeric_rewrite)
  finally show ?case using d by (simp add: rewrite_Cons)
qed

lemma clip_keys_numeric:
  assumes "numeric_columns (df s) ks"
  shows "clip_keys ks s = Inr (s\<lparr>df := rewrite (map (clip_lower 0)) ks (df s)\<rparr>)"
proof -
  have "set ks \<subseteq> set (columns (df s))"
    using numeric_has [OF assms] by (simp add: has_columns_iff)
  then show ?thesis
    by (simp add: clip_keys_def getitems_numeric [OF assms] clip_frame_floats
        setitems_floats rewrite_def)
qed

lemma drop_comments_eq:
  "drop_comments s = Inr (s\<lparr>df := filter (\<lambda>(n, c). n \<noteq> ''Comments'') (df s)\<rparr>)"
  by (simp add: drop_comments_def drop_columns_def)

lemma compute_z_scores_numeric:
  assumes "numeric_columns (df s) ks"
  shows "compute_z_scores ks s = Inr (s\<lparr>z_scores := map (\<lambda>k. (k, zscore (column (df s) k))) ks\<rparr>)"
  by (simp add: compute_z_scores_def getitems_numeric [OF assms] apply_zscore_floats)

lemma compute_z_scores_missing:
  "\<not> has_columns (df s) ks \<Longrightarrow> compute_z_scores ks s = Inl KeyError"
  by (simp add: compute_z_scores_def getitems_missing)

lemma compute_z_scores_objects:
  "has_columns (df s) ks \<Longrightarrow> \<not> numeric_columns (df s) ks \<Longrightarrow> compute_z_scores ks s = Inl TypeError"
  by (simp add: compute_z_scores_def getitems_has apply_zscore_objects)

lemma distinct_key_columns: "distinct key_columns"
  by (simp add: key_columns_def)

lemma Comments_not_key: "''Comments'' \<notin> set key_columns"
  by (simp add: key_columns_def)

lemma exec_detect:
  assumes "numeric_columns (df s) key_columns"
  shows "exec detect_stmts s = (None, s\<lparr>z_scores := scores (df s), outliers := flags (df s)\<rparr>)"
  by (simp add: detect_stmts_def compute_z_scores_numeric [OF assms] flag_outliers_def
      scores_def flags_def)

lemma exec_clean:
  assumes "numeric_columns d key_columns"
  shows "exec clean_stmts (loaded d) =
     (None, \<lparr>df = cleaned d, z_scores = scores d, outliers = flags d, files = Map.empty\<rparr>)"
proof -
  let ?s1 = "(loaded d)\<lparr>z_scores := scores d, outliers := flags d\<rparr>"
  have n1: "numeric_columns (df ?s1) key_columns"
    using assms by (simp add: loaded_def)
  have n2: "numeric_columns (filter (\<lambda>(n, c). n \<noteq> ''Comments'') (imputed d)) key_columns"
    using assms by (simp add: imputed_def numeric_rewrite numeric_filter Comments_not_key)
  have "exec detect_stmts (loaded d) = (None, ?s1)"
    using exec_detect [of "loaded d"] assms by (simp add: loaded_def)
  moreover have "exec impute_stmts ?s1 = (None, ?s1\<lparr>df := imputed d\<rparr>)"
    unfolding impute_stmts_def imputed_def
    using exec_impute [OF n1 distinct_key_columns] by (simp add: loaded_def)
  moreover have "exec [drop_comments, clip_keys key_columns] (?s1\<lparr>df := imputed d\<rparr>) =
      (None, ?s1\<lparr>df := cleaned d\<rparr>)"
    using n2 by (simp add: drop_comments_eq clip_keys_numeric cleaned_def)
  ultimately show ?thesis
    by (simp add: clean_stmts_def exec_append loaded_def)
qed

lemma exec_clean_missing:
  assumes "\<not> has_columns (df s) key_columns"
  shows "exec (clean_stmts @ q) s = (Some KeyError, s)"
  by (simp add: clean_stmts_def detect_stmts_def compute_z_scores_missing [OF assms])

lemma exec_clean_objects:
  assumes "has_columns (df s) key_columns" "\<not> numeric_columns (df s) key_columns"
  shows "exec (clean_stmts @ q) s = (Some TypeError, s)"
  by (simp add: clean_stmts_def detect_stmts_def compute_z_scores_objects [OF assms])

lemma clean_numeric: "numeric_columns d key_columns \<Longrightarrow> clean d = Inr (cleaned d)"
  by (simp add: clean_def exec_clean)

lemma clean_InrD:
  assumes "clean d = Inr d'"
  shows "numeric_columns d key_columns \<and> d' = cleaned d"
proof (cases "numeric_columns d key_columns")
  case True
  with assms show ?thesis by (simp add: clean_numeric)
next
  case False
  have "clean d = Inl KeyError \<or> clean d = Inl TypeError"
  proof (cases "has_columns d key_columns")
    case True
    with False exec_clean_objects [of "loaded d" "[]"] show ?thesis
      by (simp add: clean_def loaded_def)
  next
    case False
    with exec_clean_missing [of "loaded d" "[]"] show ?thesis
      by (simp add: clean_def loaded_def)
  qed
  with assms show ?thesis by auto
qed

lemma GHI_key: "''GHI'' \<in> set key_columns"
  by (simp add: key_columns_def)

lemma detect_outliers_numeric:
  "numeric_columns d key_columns \<Longrightarrow> detect_outliers d = Inr (flags d)"
  using exec_detect [of "loaded d"] by (simp add: detect_outliers_def loaded_def)

lemma exec_impute_stmts:
  assumes "numeric_columns (df s) key_columns"
  shows "exec impute_stmts s = (None, s\<lparr>df := imputed (df s)\<rparr>)"
  unfolding impute_stmts_def imputed_def
  using assms distinct_key_columns by (rule exec_impute)

lemma exec_cell:
  assumes "numeric_columns d key_columns"
  shows "exec (cleaning_cell dest) (loaded d) =
     (None, \<lparr>df = cleaned d, z_scores = scores d, outliers = flags d,
             files = [dest \<mapsto> to_csv (cleaned d) False]\<rparr>)"
  by (simp add: cleaning_cell_def exec_append exec_clean [OF assms] export_def)

lemma exec_cell_NoneD:
  assumes "exec (cleaning_cell dest) (loaded d) = (None, s)"
  shows "numeric_columns d key_columns"
proof (rule ccontr)
  assume no: "\<not> numeric_columns d key_columns"
  show False
  proof (cases "has_columns d key_columns")
    case True
    with no exec_clean_objects [of "loaded d" "[export dest]"] assms show False
      by (simp add: cleaning_cell_def loaded_def)
  next
    case False
    with exec_clean_missing [of "loaded d" "[export dest]"] assms show False
      by (simp add: cleaning_cell_def loaded_def)
  qed
qed

section \<open>The cleaned table\<close>

lemma columns_cleaned: "columns (cleaned d) = filter (\<lambda>n. n \<noteq> ''Comments'') (columns d)"
proof -
  have "columns (filter (\<lambda>(n, c). n \<noteq> ''Comments'') e) = filter (\<lambda>n. n \<noteq> ''Comments'') (columns e)" for e
    by (induction e) (auto simp: columns_def)
  then show ?thesis
    by (simp add: cleaned_def imputed_def columns_rewrite)
qed

lemma map_of_cleaned:
  "map_of (cleaned d) n =
     (if n = ''Comments'' then None
      else if n \<in> set key_columns
      then (case map_of d n of None \<Rightarrow> None
            | Some c \<Rightarrow> Some (Floats (map (clip_lower 0) (fillna (column d n) (median (column d n))))))
      else map_of d n)"
  by (auto simp: cleaned_def imputed_def map_of_rewrite map_of_filter_name column_def
      Comments_not_key split: option.splits)

lemma column_cleaned:
  assumes "numeric_columns d key_columns" "k \<in> set key_columns"
  shows "map_of (cleaned d) k =
     Some (Floats (map (clip_lower 0) (fillna (column d k) (median (column d k)))))"
proof -
  from assms have "map_of d k \<noteq> None"
    by (auto simp: numeric_columns_def list_all_iff split: option.splits)
  moreover from assms have "k \<noteq> ''Comments''"
    using Comments_not_key by auto
  ultimately show ?thesis using assms(2)
    by (auto simp: map_of_cleaned)
qed

lemma others_cleaned:
  "filter (\<lambda>(n, c). n \<notin> set key_columns) (cleaned d) =
   filter (\<lambda>(n, c). n \<notin> set key_columns \<and> n \<noteq> ''Comments'') d"
proof -
  let ?P = "\<lambda>(n, c::series). n \<notin> set key_columns"
  let ?Q = "\<lambda>(n, c::series). n \<noteq> ''Comments''"
  have "filter ?P (cleaned d) = filter ?P (filter ?Q (imputed d))"
    by (simp only: cleaned_def filter_rewrite)
  also have "\<dots> = filter ?Q (filter ?P (imputed d))"
    by (simp add: conj_commute)
  also have "\<dots> = filter ?Q (filter ?P d)"
    by (simp only: imputed_def filter_rewrite)
  also have "\<dots> = filter (\<lambda>(n, c). n \<notin> set key_columns \<and> n \<noteq> ''Comments'') d"
    by (simp add: split_def conj_commute)
  finally show ?thesis .
qed

lemma column_of_cleaned:
  assumes "numeric_columns d key_columns" "k \<in> set key_columns"
  shows "column (cleaned d) k = map (clip_lower 0) (fillna (column d k) (median (column d k)))"
  using column_cleaned [OF assms] by (simp add: column_def)

lemma numeric_cleaned:
  assumes "numeric_columns d key_columns"
  shows "numeric_columns (cleaned d) key_columns"
  using column_cleaned [OF assms] by (simp add: numeric_columns_def list_all_iff)

lemma cleaned_fixed:
  assumes num: "numeric_columns d key_columns"
  shows "imputed (cleaned d) = cleaned d"
    and "filter (\<lambda>(n, c). n \<noteq> ''Comments'') (cleaned d) = cleaned d"
    and "rewrite (map (clip_lower 0)) key_columns (cleaned d) = cleaned d"
proof -
  have uni: "c = Floats (column (cleaned d) n)"
    if "(n, c) \<in> set (cleaned d)" "n \<in> set key_columns" for n c
    using that unfolding cleaned_def by (rule rewrite_uniform)
  show "imputed (cleaned d) = cleaned d"
    unfolding imputed_def
  proof (rule rewrite_id)
    fix n c
    assume "(n, c) \<in> set (cleaned d)" "n \<in> set key_columns"
    then show "c = Floats (fillna (column (cleaned d) n) (median (column (cleaned d) n)))"
      using uni [of n c] by (simp add: column_of_cleaned [OF num] impute_fixed)
  qed
  have "''Comments'' \<notin> set (columns (cleaned d))"
    by (simp add: columns_cleaned)
  then show "filter (\<lambda>(n, c). n \<noteq> ''Comments'') (cleaned d) = cleaned d"
    by (force simp: columns_def filter_id_conv)
  show "rewrite (map (clip_lower 0)) key_columns (cleaned d) = cleaned d"
  proof (rule rewrite_id)
    fix n c
    assume "(n, c) \<in> set (cleaned d)" "n \<in> set key_columns"
    then show "c = Floats (map (clip_lower 0) (column (cleaned d) n))"
      using uni [of n c] by (simp add: column_of_cleaned [OF num] clip_lower_idem)
  qed
qed

lemma cleaned_idem:
  "numeric_columns d key_columns \<Longrightarrow> cleaned (cleaned d) = cleaned d"
  by (simp add: cleaned_def [of "cleaned d"] cleaned_fixed)

lemma lengths_cleaned:
  assumes num: "numeric_columns d key_columns" and rect: "rectangular d"
    and mem: "(n, s) \<in> set (cleaned d)"
  shows "series_len s = nrows d"
proof (cases "n \<in> set key_columns")
  case True
  with mem have "s = Floats (column (cleaned d) n)"
    unfolding cleaned_def by (intro rewrite_uniform)
  then have "series_len s = length (column d n)"
    using True by (simp add: column_of_cleaned [OF num] fillna_def)
  then show ?thesis
    using length_key_column [OF num True rect] by simp
next
  case False
  with mem have "(n, s) \<in> set (filter (\<lambda>(n, c). n \<notin> set key_columns) (cleaned d))"
    by simp
  then have "(n, s) \<in> set d"
    by (simp add: others_cleaned)
  with rect show ?thesis by (rule rectangularD)
qed

lemma nrows_cleaned:
  assumes num: "numeric_columns d key_columns" and rect: "rectangular d"
  shows "nrows (cleaned d) = nrows d"
proof (cases "cleaned d")
  case Nil
  with numeric_member [OF numeric_cleaned [OF num] GHI_key] show ?thesis by simp
next
  case (Cons p r)
  obtain n s where p: "p = (n, s)" by (cases p)
  with Cons have "(n, s) \<in> set (cleaned d)" by simp
  from lengths_cleaned [OF num rect this] Cons p show ?thesis
    by (simp add: nrows_def)
qed

lemma rectangular_cleaned:
  assumes num: "numeric_columns d key_columns" and rect: "rectangular d"
  shows "rectangular (cleaned d)"
  using lengths_cleaned [OF num rect] nrows_cleaned [OF num rect]
  by (auto simp: rectangular_def list_all_iff)

lemma nth_cleaned:
  assumes "numeric_columns d key_columns" "k \<in> set key_columns" "i < length (column d k)"
  shows "column (cleaned d) k ! i =
     clip_lower 0 (case column d k ! i of None \<Rightarrow> median (column d k) | Some x \<Rightarrow> Some x)"
  using assms(3) by (simp add: column_of_cleaned [OF assms(1,2)] fillna_def)



section \<open>The outlier flags\<close>

lemma length_flags: "length (flags d) = length (column d ''GHI'')"
  by (simp add: flags_def scores_def key_columns_def any_axis1_def length_zscore)

section \<open>The sample tables\<close>

lemma sample_numeric: "numeric_columns sample key_columns"
  by (simp add: numeric_columns_def sample_def key_columns_def)

lemma sample_rectangular: "rectangular sample"
  by (simp add: rectangular_def sample_def nrows_def)

lemma cleaned_sample: "cleaned sample = sample_clean"
  by (simp add: cleaned_def imputed_def rewrite_def sample_def sample_clean_def key_columns_def
      column_def median_def fillna_def clip_lower_def mean2_sample)

lemma clean_sample: "clean sample = Inr sample_clean"
  using clean_numeric [OF sample_numeric] by (simp add: cleaned_sample)

lemma nrows_spike: "nrows spike = 11"
  by (simp add: nrows_def spike_def)

lemma spike_numeric: "numeric_columns spike key_columns"
  by (simp add: numeric_columns_def spike_def key_columns_def)

lemma spike_rectangular: "rectangular spike"
  by (simp add: rectangular_def spike_def nrows_def)

lemma zscore_GHI:
  "zscore [Some 0, Some 0, Some 0, Some 0, Some 0, Some 0, Some 0, Some 0, Some 0, Some 0, Some 11] =
   [Some (- 1 / sqrt 10), Some (- 1 / sqrt 10), Some (- 1 / sqrt 10), Some (- 1 / sqrt 10),
    Some (- 1 / sqrt 10), Some (- 1 / sqrt 10), Some (- 1 / sqrt 10), Some (- 1 / sqrt 10),
    Some (- 1 / sqrt 10), Some (- 1 / sqrt 10), Some (10 / sqrt 10)]"
  by (simp add: zscore_def nanmean_def nanstd_def)

lemma zscore_const:
  "zscore [Some c, Some c, Some c, Some c, Some c, Some c, Some c, Some c, Some c, Some c, Some c] =
   [None, None, None, None, None, None, None, None, None, None, None]"
  by (simp add: zscore_def nanmean_def nanstd_def)

lemma zscore_const':
  "zscore [None, Some c, Some c, Some c, Some c, Some c, Some c, Some c, Some c, Some c, Some c] =
   [None, None, None, None, None, None, None, None, None, None, None]"
  by (simp add: zscore_def nanmean_def nanstd_def)

lemma flags_spike:
  "flags spike = [False, False, False, False, False, False, False, False, False, False, True]"
  by (simp add: flags_def scores_def key_columns_def column_def spike_def zscore_GHI zscore_const
      zscore_const' any_axis1_def abs_gt_div_sqrt abs_gt_minus_div_sqrt abs_gt_None
      upt_rec [of _ "numeral _"])

lemma detect_outliers_spike:
  "detect_outliers spike =
     Inr [False, False, False, False, False, False, False, False, False, False, True]"
  by (simp add: detect_outliers_numeric [OF spike_numeric] flags_spike)

lemma sample_blank_numeric: "numeric_columns sample_blank key_columns"
  by (simp add: numeric_columns_def sample_blank_def key_columns_def)

lemma sample_clean_numeric: "numeric_columns sample_clean key_columns"
  by (simp add: numeric_columns_def sample_clean_def key_columns_def)

lemma exec_cell_sample:
  "exec (cleaning_cell ''data/benin_clean.csv'') (loaded sample) = (None, sample_export)"
  by (simp add: exec_cell [OF sample_numeric] cleaned_sample sample_export_def)

lemma nrows_sample: "nrows sample = 4"
  by (simp add: nrows_def sample_def)


section \<open>The claims\<close>

text \<open>
  Claim C1. When every key column of the input holds at least one value that is not
  missing, \<open>clean\<close> runs through and leaves no missing entry in any key column: the column
  has a median, each missing entry holds that median and each other entry its own value
  (both as the later clipping step leaves them), and the column keeps its length.
\<close>

theorem clean_no_missing:
  assumes "list_all (\<lambda>k. list_ex (\<lambda>v. v \<noteq> None) (column d k)) key_columns"
    and "k \<in> set key_columns"
  shows "\<exists>d' m ys. clean d = Inr d' \<and> median (column d k) = Some m \<and>
           map_of d' k = Some (Floats ys) \<and> None \<notin> set ys \<and>
           length ys = length (column d k) \<and>
           (\<forall>i<length ys. ys ! i =
              clip_lower 0 (case column d k ! i of None \<Rightarrow> Some m | Some x \<Rightarrow> Some x))"
proof -
  have num: "numeric_columns d key_columns"
    using assms(1) by (rule present_numeric)
  from assms obtain m where m: "median (column d k) = Some m"
    using median_Some by (auto simp: list_all_iff)
  let ?ys = "map (clip_lower 0) (fillna (column d k) (Some m))"
  have "clean d = Inr (cleaned d)"
    using num by (rule clean_numeric)
  moreover have "map_of (cleaned d) k = Some (Floats ?ys)"
    using column_cleaned [OF num assms(2)] m by simp
  moreover have "None \<notin> set ?ys"
    by (intro clip_no_missing fillna_no_missing) simp
  moreover have "length ?ys = length (column d k)"
    by (simp add: fillna_def)
  moreover have "\<forall>i<length ?ys. ?ys ! i =
      clip_lower 0 (case column d k ! i of None \<Rightarrow> Some m | Some x \<Rightarrow> Some x)"
    by (simp add: fillna_def)
  ultimately show ?thesis using m by blast
qed

theorem clean_no_missing_witness:
  "list_all (\<lambda>k. list_ex (\<lambda>v. v \<noteq> None) (column sample k)) key_columns \<and>
   ''GHI'' \<in> set key_columns \<and> clean sample = Inr sample_clean \<and>
   median (column sample ''GHI'') = Some 2 \<and>
   (\<exists>ys. map_of sample_clean ''GHI'' = Some (Floats ys) \<and> None \<notin> set ys \<and>
      length ys = length (column sample ''GHI'') \<and>
      (\<forall>i<length ys. ys ! i =
         clip_lower 0 (case column sample ''GHI'' ! i of None \<Rightarrow> Some 2 | Some x \<Rightarrow> Some x)))"
proof -
  have h1: "list_all (\<lambda>k. list_ex (\<lambda>v. v \<noteq> None) (column sample k)) key_columns"
    by (simp add: key_columns_def column_def sample_def del: not_None_eq)
  have c: "column sample ''GHI'' = [Some 1, Some 2, None, Some 100]"
    by (simp add: column_def sample_def)
  have m: "median (column sample ''GHI'') = Some 2"
    by (simp only: c median_GHI)
  from clean_no_missing [OF h1 GHI_key]
  have "\<exists>ys. map_of sample_clean ''GHI'' = Some (Floats ys) \<and> None \<notin> set ys \<and>
      length ys = length (column sample ''GHI'') \<and>
      (\<forall>i<length ys. ys ! i =
         clip_lower 0 (case column sample ''GHI'' ! i of None \<Rightarrow> Some 2 | Some x \<Rightarrow> Some x))"
    unfolding clean_sample m by auto
  with h1 GHI_key clean_sample m show ?thesis
    by blast
qed

text \<open>
  Claim C2. After \<open>clean\<close> every value in every key column is at least zero: the column is
  the imputed input column clipped entry by entry, and clipping sends a value below zero to
  zero and keeps a value at or above zero. (An entry still missing, as in a column without
  any value, is no value.)
\<close>

theorem clean_nonnegative:
  assumes "clean d = Inr d'" and "k \<in> set key_columns"
  shows "(\<exists>ys. map_of d' k = Some (Floats ys) \<and>
            ys = map (clip_lower 0) (fillna (column d k) (median (column d k))) \<and>
            (\<forall>y. Some y \<in> set ys \<longrightarrow> 0 \<le> y)) \<and>
         (\<forall>x. x < 0 \<longrightarrow> clip_lower 0 (Some x) = Some 0) \<and>
         (\<forall>x. 0 \<le> x \<longrightarrow> clip_lower 0 (Some x) = Some x)"
proof -
  from clean_InrD [OF assms(1)] have num: "numeric_columns d key_columns" and d': "d' = cleaned d"
    by simp_all
  let ?ys = "map (clip_lower 0) (fillna (column d k) (median (column d k)))"
  have "map_of d' k = Some (Floats ?ys)"
    using column_cleaned [OF num assms(2)] d' by simp
  moreover have "\<forall>y. Some y \<in> set ?ys \<longrightarrow> 0 \<le> y"
    by (auto dest: clip_lower_ge [OF sym])
  ultimately show ?thesis
    by (simp add: clip_lower_def)
qed

theorem clean_nonnegative_witness:
  "clean sample = Inr sample_clean \<and> ''DNI'' \<in> set key_columns \<and>
   (\<exists>ys. map_of sample_clean ''DNI'' = Some (Floats ys) \<and>
      ys = map (clip_lower 0) (fillna (column sample ''DNI'') (median (column sample ''DNI''))) \<and>
      (\<forall>y. Some y \<in> set ys \<longrightarrow> 0 \<le> y)) \<and>
   clip_lower 0 (Some (- 5)) = Some 0 \<and> clip_lower 0 (Some 3) = Some 3"
proof -
  have h2: "''DNI'' \<in> set key_columns"
    by (simp add: key_columns_def)
  note t = clean_nonnegative [OF clean_sample h2]
  from t have below: "clip_lower 0 (Some (- 5)) = Some 0"
    by simp
  from t have above: "clip_lower 0 (Some 3) = Some 3"
    by simp
  from t clean_sample h2 below above show ?thesis
    by blast
qed

text \<open>
  Claim C3. On a rectangular table, as every data frame is, \<open>clean\<close> keeps the number of
  rows and the shape. Every row is still there, a row flagged as an outlier included: the
  flags have one entry per row of the output, each key column of the output holds at row
  \<open>i\<close> the entry of row \<open>i\<close> of the input (imputed when missing, then clipped), and the
  other columns are the input's, the comment column apart.
\<close>

theorem clean_keeps_rows:
  assumes "rectangular d" and "clean d = Inr d'"
  shows "nrows d' = nrows d \<and> rectangular d' \<and>
         (\<exists>fl. detect_outliers d = Inr fl \<and> length fl = nrows d' \<and>
            (\<forall>i. i < length fl \<and> fl ! i \<longrightarrow> i < nrows d')) \<and>
         (\<forall>k\<in>set key_columns. length (column d' k) = nrows d \<and>
            (\<forall>i<nrows d. column d' k ! i =
               clip_lower 0 (case column d k ! i of
                               None \<Rightarrow> median (column d k) | Some x \<Rightarrow> Some x))) \<and>
         filter (\<lambda>(n, c). n \<notin> set key_columns) d' =
           filter (\<lambda>(n, c). n \<notin> set key_columns \<and> n \<noteq> ''Comments'') d"
proof -
  from clean_InrD [OF assms(2)] have num: "numeric_columns d key_columns" and d': "d' = cleaned d"
    by simp_all
  have rows: "nrows d' = nrows d"
    using nrows_cleaned [OF num assms(1)] d' by simp
  have rect: "rectangular d'"
    using rectangular_cleaned [OF num assms(1)] d' by simp
  have len: "length (column d k) = nrows d" if "k \<in> set key_columns" for k
    using length_key_column [OF num that assms(1)] .
  have "length (flags d) = nrows d'"
    using len [OF GHI_key] rows by (simp add: length_flags)
  then have fl: "\<exists>fl. detect_outliers d = Inr fl \<and> length fl = nrows d' \<and>
      (\<forall>i. i < length fl \<and> fl ! i \<longrightarrow> i < nrows d')"
    by (simp add: detect_outliers_numeric [OF num])
  have keys: "\<forall>k\<in>set key_columns. length (column d' k) = nrows d \<and>
      (\<forall>i<nrows d. column d' k ! i =
         clip_lower 0 (case column d k ! i of None \<Rightarrow> median (column d k) | Some x \<Rightarrow> Some x))"
  proof (intro ballI conjI allI impI)
    fix k assume k: "k \<in> set key_columns"
    show "length (column d' k) = nrows d"
      using len [OF k] by (simp add: d' column_of_cleaned [OF num k] fillna_def)
    fix i assume "i < nrows d"
    then have "i < length (column d k)" by (simp add: len [OF k])
    from nth_cleaned [OF num k this] show "column d' k ! i =
         clip_lower 0 (case column d k ! i of None \<Rightarrow> median (column d k) | Some x \<Rightarrow> Some x)"
      by (simp add: d')
  qed
  from rows rect fl keys others_cleaned [of d] d' show ?thesis
    by blast
qed

theorem clean_keeps_rows_witness:
  "rectangular spike \<and> clean spike = Inr (cleaned spike) \<and>
   nrows (cleaned spike) = 11 \<and> rectangular (cleaned spike) \<and>
   (\<exists>fl. detect_outliers spike = Inr fl \<and> length fl = nrows (cleaned spike) \<and> fl ! 10) \<and>
   column (cleaned spike) ''GHI'' ! 10 = Some 11"
proof -
  note c = clean_numeric [OF spike_numeric]
  note t = clean_keeps_rows [OF spike_rectangular c]
  from t have rows: "nrows (cleaned spike) = 11"
    by (simp add: nrows_spike)
  from t have rect: "rectangular (cleaned spike)"
    by simp
  from t have fl: "\<exists>fl. detect_outliers spike = Inr fl \<and> length fl = nrows (cleaned spike) \<and> fl ! 10"
    by (auto simp: detect_outliers_spike)
  from t have "\<forall>i<nrows spike. column (cleaned spike) ''GHI'' ! i =
      clip_lower 0 (case column spike ''GHI'' ! i of
                      None \<Rightarrow> median (column spike ''GHI'') | Some x \<Rightarrow> Some x)"
    using GHI_key by blast
  then have "column (cleaned spike) ''GHI'' ! 10 =
      clip_lower 0 (case column spike ''GHI'' ! 10 of
                      None \<Rightarrow> median (column spike ''GHI'') | Some x \<Rightarrow> Some x)"
    by (simp add: nrows_spike)
  also have "\<dots> = Some 11"
    by (simp add: column_def spike_def clip_lower_def)
  finally have cell: "column (cleaned spike) ''GHI'' ! 10 = Some 11" .
  from spike_rectangular c rows rect fl cell show ?thesis
    by blast
qed



text \<open>
  Claim C6. On a table with every key column (numeric), \<open>clean\<close> run on its own output
  returns that output: on the cleaned table the imputation loop, the drop of the comment
  column and the clipping each leave the state as it is.
\<close>

theorem clean_idempotent:
  assumes "numeric_columns d key_columns"
  shows "\<exists>d'. clean d = Inr d' \<and> clean d' = Inr d' \<and>
           (\<forall>s. df s = d' \<longrightarrow>
              exec impute_stmts s = (None, s) \<and> drop_comments s = Inr s \<and>
              clip_keys key_columns s = Inr s)"
proof -
  let ?d' = "cleaned d"
  have num': "numeric_columns ?d' key_columns"
    using assms by (rule numeric_cleaned)
  have "clean d = Inr ?d'"
    using assms by (rule clean_numeric)
  moreover have "clean ?d' = Inr ?d'"
    using clean_numeric [OF num'] cleaned_idem [OF assms] by simp
  moreover have "exec impute_stmts s = (None, s)" if "df s = ?d'" for s
    using that num' exec_impute_stmts [of s] cleaned_fixed(1) [OF assms] by simp
  moreover have "drop_comments s = Inr s" if "df s = ?d'" for s
    using that cleaned_fixed(2) [OF assms] by (simp add: drop_comments_eq)
  moreover have "clip_keys key_columns s = Inr s" if "df s = ?d'" for s
    using that num' cleaned_fixed(3) [OF assms] by (simp add: clip_keys_numeric)
  ultimately show ?thesis by blast
qed

theorem clean_idempotent_witness:
  "numeric_columns sample key_columns \<and>
   clean sample = Inr sample_clean \<and> clean sample_clean = Inr sample_clean \<and>
   exec impute_stmts (loaded sample_clean) = (None, loaded sample_clean) \<and>
   drop_comments (loaded sample_clean) = Inr (loaded sample_clean) \<and>
   clip_keys key_columns (loaded sample_clean) = Inr (loaded sample_clean)"
proof -
  have "df (loaded sample_clean) = sample_clean"
    by (simp add: loaded_def)
  with clean_idempotent [OF sample_numeric] sample_numeric clean_sample show ?thesis
    by auto
qed

text \<open>
  Claim C7. When the table lacks one of the key columns, the cell stops with KeyError in
  the state in which it started: the table is as it was and no file has been written.
  \<open>clean\<close> reports the same error.
\<close>

theorem missing_key_column_aborts:
  assumes "k \<in> set key_columns" and "k \<notin> set (columns (df s))"
  shows "exec (cleaning_cell dest) s = (Some KeyError, s) \<and> clean (df s) = Inl KeyError"
proof -
  from assms have no: "\<not> has_columns (df s) key_columns"
    by (auto simp: has_columns_iff)
  then have "\<not> has_columns (df (loaded (df s))) key_columns"
    by (simp add: loaded_def)
  from exec_clean_missing [OF no] exec_clean_missing [OF this, of "[]"] show ?thesis
    by (simp add: cleaning_cell_def clean_def)
qed

theorem missing_key_column_aborts_witness:
  "''DNI'' \<in> set key_columns \<and> ''DNI'' \<notin> set (columns (df (loaded sample_no_dni))) \<and>
   exec (cleaning_cell ''data/benin_clean.csv'') (loaded sample_no_dni) =
     (Some KeyError, loaded sample_no_dni) \<and>
   clean (df (loaded sample_no_dni)) = Inl KeyError"
proof -
  have h1: "''DNI'' \<in> set key_columns"
    by (simp add: key_columns_def)
  have h2: "''DNI'' \<notin> set (columns (df (loaded sample_no_dni)))"
    by (simp add: loaded_def columns_def sample_no_dni_def)
  from missing_key_column_aborts [OF h1 h2] h1 h2 show ?thesis
    by blast
qed

text \<open>
  Claim C8. The statement that drops the \<open>Comments\<close> column never raises: it removes the
  column when the table has it and leaves the state as it is when the table has none. A
  run of \<open>clean\<close> (on a table with its key columns) returns the input's columns in order
  without \<open>Comments\<close>, which is all of them when there was no such column.
\<close>

theorem comments_column_dropped:
  assumes "numeric_columns d key_columns"
  shows "\<exists>s' d'. drop_comments s = Inr s' \<and>
           df s' = filter (\<lambda>(n, c). n \<noteq> ''Comments'') (df s) \<and>
           ''Comments'' \<notin> set (columns (df s')) \<and>
           (''Comments'' \<notin> set (columns (df s)) \<longrightarrow> s' = s) \<and>
           clean d = Inr d' \<and>
           columns d' = filter (\<lambda>n. n \<noteq> ''Comments'') (columns d) \<and>
           ''Comments'' \<notin> set (columns d') \<and>
           (''Comments'' \<notin> set (columns d) \<longrightarrow> columns d' = columns d)"
proof -
  let ?s' = "s\<lparr>df := filter (\<lambda>(n, c). n \<noteq> ''Comments'') (df s)\<rparr>"
  have gone: "''Comments'' \<notin> set (columns (filter (\<lambda>(n, c). n \<noteq> ''Comments'') e))" for e :: dataframe
    by (auto simp: columns_def)
  have same: "filter (\<lambda>(n, c). n \<noteq> ''Comments'') e = e"
    if "''Comments'' \<notin> set (columns e)" for e :: dataframe
    using that by (force simp: columns_def filter_id_conv)
  have "drop_comments s = Inr ?s'"
    by (rule drop_comments_eq)
  moreover have "df ?s' = filter (\<lambda>(n, c). n \<noteq> ''Comments'') (df s)"
    by simp
  moreover have "''Comments'' \<notin> set (columns (df ?s'))"
    using gone by simp
  moreover have "''Comments'' \<notin> set (columns (df s)) \<longrightarrow> ?s' = s"
    using same by simp
  moreover have "clean d = Inr (cleaned d)"
    using assms by (rule clean_numeric)
  moreover have "columns (cleaned d) = filter (\<lambda>n. n \<noteq> ''Comments'') (columns d)"
    by (rule columns_cleaned)
  moreover have "''Comments'' \<notin> set (columns (cleaned d))"
    by (simp add: columns_cleaned)
  moreover have "''Comments'' \<notin> set (columns d) \<longrightarrow> columns (cleaned d) = columns d"
    by (auto simp: columns_cleaned filter_id_conv)
  ultimately show ?thesis
    by blast
qed

theorem comments_column_dropped_witness:
  "numeric_columns sample key_columns \<and> numeric_columns sample_clean key_columns \<and>
   (\<exists>d'. clean sample = Inr d' \<and> columns d' =
      [''Timestamp'', ''GHI'', ''DNI'', ''DHI'', ''ModA'', ''ModB'', ''WS'', ''WSgust'', ''Tamb'']) \<and>
   drop_comments (loaded sample_clean) = Inr (loaded sample_clean)"
proof -
  have a: "\<exists>d'. clean sample = Inr d' \<and> columns d' =
      [''Timestamp'', ''GHI'', ''DNI'', ''DHI'', ''ModA'', ''ModB'', ''WS'', ''WSgust'', ''Tamb'']"
    using comments_column_dropped [OF sample_numeric, of "loaded sample"]
    by (auto simp: columns_def sample_def)
  have "''Comments'' \<notin> set (columns (df (loaded sample_clean)))"
    by (simp add: loaded_def columns_def sample_clean_def)
  with comments_column_dropped [OF sample_clean_numeric, of "loaded sample_clean"]
  have b: "drop_comments (loaded sample_clean) = Inr (loaded sample_clean)"
    by auto
  from sample_numeric sample_clean_numeric a b show ?thesis
    by blast
qed

text \<open>
  Claim C9. When the cell runs through, the exported file has a header line with the
  input's column names in order, \<open>Comments\<close> left out, and one line per input row, in row
  order: line \<open>i\<close> holds the cells of row \<open>i\<close> of the cleaned table, one field per column
  and no field for the row label. The columns that are neither key columns nor \<open>Comments\<close>
  are the input's, unchanged; a key column holds at row \<open>i\<close> the input's entry of row \<open>i\<close>,
  imputed when missing and clipped. The table is rectangular, as every data frame is.
\<close>

theorem export_keeps_schema:
  assumes "rectangular d" and "exec (cleaning_cell dest) (loaded d) = (None, s)"
  shows "\<exists>hdr body. files s dest = Some (hdr, body) \<and>
           hdr = filter (\<lambda>n. n \<noteq> ''Comments'') (columns d) \<and>
           hdr = columns (df s) \<and>
           length body = nrows d \<and>
           (\<forall>i<nrows d. body ! i = map (\<lambda>(n, c). cells c ! i) (df s)) \<and>
           (\<forall>r\<in>set body. length r = length hdr) \<and>
           nrows (df s) = nrows d \<and>
           filter (\<lambda>(n, c). n \<notin> set key_columns) (df s) =
             filter (\<lambda>(n, c). n \<notin> set key_columns \<and> n \<noteq> ''Comments'') d \<and>
           (\<forall>k\<in>set key_columns. \<forall>i<nrows d.
              column (df s) k ! i =
                clip_lower 0 (case column d k ! i of
                                None \<Rightarrow> median (column d k) | Some x \<Rightarrow> Some x))"
proof -
  from assms(2) have num: "numeric_columns d key_columns"
    by (rule exec_cell_NoneD)
  let ?body = "map (\<lambda>i. map (\<lambda>(n, c). cells c ! i) (cleaned d)) [0 ..< nrows d]"
  from assms(2) have s: "s = \<lparr>df = cleaned d, z_scores = scores d, outliers = flags d,
      files = [dest \<mapsto> to_csv (cleaned d) False]\<rparr>"
    by (simp add: exec_cell [OF num])
  have rows: "nrows (cleaned d) = nrows d"
    using num assms(1) by (rule nrows_cleaned)
  have out: "files s dest = Some (columns (cleaned d), ?body)"
    by (simp add: s to_csv_plain rows)
  have hdr: "columns (cleaned d) = filter (\<lambda>n. n \<noteq> ''Comments'') (columns d)"
    by (rule columns_cleaned)
  have df: "df s = cleaned d"
    by (simp add: s)
  have "length ?body = nrows d"
    by simp
  moreover have "\<forall>i<nrows d. ?body ! i = map (\<lambda>(n, c). cells c ! i) (df s)"
    by (simp add: df)
  moreover have "\<forall>r\<in>set ?body. length r = length (columns (cleaned d))"
    by (auto simp: columns_def)
  moreover have "filter (\<lambda>(n, c). n \<notin> set key_columns) (df s) =
      filter (\<lambda>(n, c). n \<notin> set key_columns \<and> n \<noteq> ''Comments'') d"
    unfolding df by (rule others_cleaned)
  moreover have "\<forall>k\<in>set key_columns. \<forall>i<nrows d. column (df s) k ! i =
      clip_lower 0 (case column d k ! i of None \<Rightarrow> median (column d k) | Some x \<Rightarrow> Some x)"
    unfolding df using nth_cleaned [OF num] length_key_column [OF num _ assms(1)] by simp
  ultimately show ?thesis
    using out hdr df rows by (intro exI [of _ "columns (cleaned d)"] exI [of _ ?body]) simp
qed

theorem export_keeps_schema_witness:
  "rectangular sample \<and>
   exec (cleaning_cell ''data/benin_clean.csv'') (loaded sample) = (None, sample_export) \<and>
   (\<exists>hdr body. files sample_export ''data/benin_clean.csv'' = Some (hdr, body) \<and>
      hdr = [''Timestamp'', ''GHI'', ''DNI'', ''DHI'', ''ModA'', ''ModB'', ''WS'', ''WSgust'',
             ''Tamb''] \<and>
      length body = 4 \<and>
      body ! 2 = [Some (Inr ''2021-08-09 00:03''), Some (Inl 2), Some (Inl 3), Some (Inl 0),
                  Some (Inl 2), Some (Inl 1), Some (Inl 2), Some (Inl 0), Some (Inl 26)])"
proof -
  from export_keeps_schema [OF sample_rectangular exec_cell_sample]
  obtain hdr body where f: "files sample_export ''data/benin_clean.csv'' = Some (hdr, body)"
    and h: "hdr = filter (\<lambda>n. n \<noteq> ''Comments'') (columns sample)"
    and l: "length body = nrows sample"
    and r: "\<forall>i<nrows sample. body ! i = map (\<lambda>(n, c). cells c ! i) (df sample_export)"
    by blast
  from h have h': "hdr = [''Timestamp'', ''GHI'', ''DNI'', ''DHI'', ''ModA'', ''ModB'', ''WS'',
      ''WSgust'', ''Tamb'']"
    by (simp add: columns_def sample_def)
  from l have l': "length body = 4"
    by (simp add: nrows_sample)
  from r have "body ! 2 = map (\<lambda>(n, c). cells c ! 2) (df sample_export)"
    by (simp add: nrows_sample)
  also have "\<dots> = [Some (Inr ''2021-08-09 00:03''), Some (Inl 2), Some (Inl 3), Some (Inl 0),
      Some (Inl 2), Some (Inl 1), Some (Inl 2), Some (Inl 0), Some (Inl 26)]"
    by (simp add: sample_export_def sample_clean_def)
  finally have r': "body ! 2 = [Some (Inr ''2021-08-09 00:03''), Some (Inl 2), Some (Inl 3),
      Some (Inl 0), Some (Inl 2), Some (Inl 1), Some (Inl 2), Some (Inl 0), Some (Inl 26)]" .
  from sample_rectangular exec_cell_sample f h' l' r' show ?thesis
    by blast
qed

text \<open>
  Claim C10. A key column whose entries are all missing has no median, and filling with
  it changes nothing: the loop's turn for that column runs through and leaves the column
  as it is. On a table that has every key column (numeric; otherwise the cell raises at its
  first statement) \<open>clean\<close> runs through and returns that column with every entry still
  missing: when the table has a row, the column of the output holds a missing entry.
\<close>

theorem blank_key_column_stays_blank:
  assumes "map_of d k = Some (Floats xs)" and "list_all (\<lambda>v. v = None) xs"
    and "k \<in> set key_columns"
  shows "median xs = None \<and> fillna xs (median xs) = xs \<and>
         (\<forall>s. df s = d \<longrightarrow>
            (\<exists>s'. impute_col k s = Inr s' \<and> map_of (df s') k = Some (Floats xs))) \<and>
         (numeric_columns d key_columns \<longrightarrow>
            (\<exists>d'. clean d = Inr d' \<and> map_of d' k = Some (Floats xs) \<and>
               (xs \<noteq> [] \<longrightarrow> None \<in> set (column d' k))))"
proof -
  note m = all_missing_median [OF assms(2)]
  have c: "column d k = xs"
    using assms(1) by (simp add: column_def)
  have turn: "\<exists>s'. impute_col k s = Inr s' \<and> map_of (df s') k = Some (Floats xs)"
    if "df s = d" for s
    using that assms(1) m by (simp add: impute_col_def getitem_def map_of_setitem)
  have run: "\<exists>d'. clean d = Inr d' \<and> map_of d' k = Some (Floats xs) \<and>
      (xs \<noteq> [] \<longrightarrow> None \<in> set (column d' k))"
    if num: "numeric_columns d key_columns"
  proof -
    from assms(2) have "map (clip_lower 0) xs = xs"
      by (auto simp: list_all_iff clip_lower_def intro!: map_idI)
    with column_cleaned [OF num assms(3)] m c
    have col: "map_of (cleaned d) k = Some (Floats xs)"
      by simp
    then have col': "column (cleaned d) k = xs"
      by (simp add: column_def)
    have "xs \<noteq> [] \<longrightarrow> None \<in> set xs"
      using assms(2) by (cases xs) (auto simp: list_all_iff)
    with col col' clean_numeric [OF num] show ?thesis
      by simp
  qed
  from m turn run show ?thesis
    by blast
qed

theorem blank_key_column_stays_blank_witness:
  "map_of sample_blank ''WS'' = Some (Floats [None, None]) \<and>
   list_all (\<lambda>v. v = None) [None, None :: real option] \<and> ''WS'' \<in> set key_columns \<and>
   median [None, None] = None \<and>
   (\<exists>s'. impute_col ''WS'' (loaded sample_blank) = Inr s' \<and>
      map_of (df s') ''WS'' = Some (Floats [None, None])) \<and>
   numeric_columns sample_blank key_columns \<and>
   (\<exists>d'. clean sample_blank = Inr d' \<and> map_of d' ''WS'' = Some (Floats [None, None]) \<and>
      None \<in> set (column d' ''WS''))"
proof -
  have h1: "map_of sample_blank ''WS'' = Some (Floats [None, None])"
    by (simp add: sample_blank_def)
  have h2: "list_all (\<lambda>v. v = None) [None, None :: real option]"
    by simp
  have h3: "''WS'' \<in> set key_columns"
    by (simp add: key_columns_def)
  have d: "df (loaded sample_blank) = sample_blank"
    by (simp add: loaded_def)
  note t = blank_key_column_stays_blank [OF h1 h2 h3]
  from t have m: "median [None, None] = None"
    by blast
  from t d have turn: "\<exists>s'. impute_col ''WS'' (loaded sample_blank) = Inr s' \<and>
      map_of (df s') ''WS'' = Some (Floats [None, None])"
    by blast
  from t sample_blank_numeric
  have "\<exists>d'. clean sample_blank = Inr d' \<and> map_of d' ''WS'' = Some (Floats [None, None]) \<and>
      None \<in> set (column d' ''WS'')"
    by auto
  with h1 h2 h3 m turn sample_blank_numeric show ?thesis
    by blast
qed

end
